theory Spec2Isabelle
  imports Main "HOL-Library.Multiset"
begin

section \<open>JavaScript values used by the program\<close>

text \<open>
  Strings are lists of 8-bit characters. A JavaScript value that may be \<open>undefined\<close>
  (an array element read out of range) is an \<open>option\<close>, a number that may be \<open>NaN\<close>
  is an \<open>int option\<close> with \<open>None\<close> for \<open>NaN\<close>.
\<close>

definition js_index :: "'a list \<Rightarrow> nat \<Rightarrow> 'a option" where
  \<comment> \<open>\<open>xs[i]\<close>: \<open>undefined\<close> out of range\<close>
  "js_index xs i = (if i < length xs then Some (xs ! i) else None)"

fun split_str :: "char \<Rightarrow> string \<Rightarrow> string list" where
  \<comment> \<open>\<open>s.split(c)\<close> for a one-character separator\<close>
  "split_str c [] = [Nil]"
| "split_str c (x # xs) =
     (if x = c then [] # split_str c xs
      else (case split_str c xs of
              [] \<Rightarrow> [x] # []
            | w # ws \<Rightarrow> (x # w) # ws))"

fun indexOf :: "string list \<Rightarrow> string option \<Rightarrow> int" where
  \<comment> \<open>\<open>xs.indexOf(v)\<close>: the first index holding \<open>v\<close>, \<open>-1\<close> when there is none\<close>
  "indexOf [] v = -1"
| "indexOf (x # xs) v =
     (if Some x = v then 0
      else (let i = indexOf xs v in if i = -1 then -1 else i + 1))"

definition is_space :: "char \<Rightarrow> bool" where
  \<comment> \<open>white space and line terminators of ECMAScript below code 256\<close>
  "is_space c = (of_char c \<in> {9, 10, 11, 12, 13, 32, 160 :: nat})"

definition is_digit :: "char \<Rightarrow> bool" where
  "is_digit c = (48 \<le> (of_char c :: nat) \<and> (of_char c :: nat) \<le> 57)"

definition is_alpha :: "char \<Rightarrow> bool" where
  "is_alpha c = ((97 \<le> (of_char c :: nat) \<and> (of_char c :: nat) \<le> 122)
               \<or> (65 \<le> (of_char c :: nat) \<and> (of_char c :: nat) \<le> 90))"

section \<open>Regular expressions\<close>

text \<open>
  The pattern of \<open>resolvePattern\<close> is anchored at both ends and has neither flags nor
  back references, so \<open>regex.test\<close> decides membership of the whole string in a regular
  language. The matcher below consumes the string one character at a time.
\<close>

datatype rx =
    Never
  | Empty
  | Ch "char \<Rightarrow> bool"
  | Or rx rx
  | Then rx rx
  | Many rx

primrec nullable :: "rx \<Rightarrow> bool" where
  "nullable Never = False"
| "nullable Empty = True"
| "nullable (Ch p) = False"
| "nullable (Or r s) = (nullable r \<or> nullable s)"
| "nullable (Then r s) = (nullable r \<and> nullable s)"
| "nullable (Many r) = True"

primrec after :: "char \<Rightarrow> rx \<Rightarrow> rx" where
  "after c Never = Never"
| "after c Empty = Never"
| "after c (Ch p) = (if p c then Empty else Never)"
| "after c (Or r s) = Or (after c r) (after c s)"
| "after c (Then r s) =
     (if nullable r then Or (Then (after c r) s) (after c s)
      else Then (after c r) s)"
| "after c (Many r) = Then (after c r) (Many r)"

primrec regex_test :: "rx \<Rightarrow> string \<Rightarrow> bool" where
  "regex_test r [] = nullable r"
| "regex_test r (c # cs) = regex_test (after c r) cs"

text \<open>
  The language of an expression, against which the matcher is checked below: \<open>iter A\<close>
  holds the concatenations of finitely many words of \<open>A\<close>.
\<close>

inductive_set iter :: "string set \<Rightarrow> string set" for A :: "string set" where
  iter_nil: "[] \<in> iter A"
| iter_more: "u \<in> A \<Longrightarrow> v \<in> iter A \<Longrightarrow> u @ v \<in> iter A"

primrec lang :: "rx \<Rightarrow> string set" where
  "lang Never = {}"
| "lang Empty = {[]}"
| "lang (Ch p) = {[c] | c. p c}"
| "lang (Or r s) = lang r \<union> lang s"
| "lang (Then r s) = {u @ v | u v. u \<in> lang r \<and> v \<in> lang s}"
| "lang (Many r) = iter (lang r)"

definition lit :: "char \<Rightarrow> rx" where
  "lit c = Ch (\<lambda>x. x = c)"

definition some1 :: "rx \<Rightarrow> rx" where
  \<comment> \<open>\<open>r+\<close>\<close>
  "some1 r = Then r (Many r)"

definition opt :: "rx \<Rightarrow> rx" where
  \<comment> \<open>\<open>r?\<close>\<close>
  "opt r = Or r Empty"

definition rep_1_3 :: "rx \<Rightarrow> rx" where
  \<comment> \<open>\<open>r{1,3}\<close>\<close>
  "rep_1_3 r = Then r (opt (Then r (opt r)))"

definition rep_2_up :: "rx \<Rightarrow> rx" where
  \<comment> \<open>\<open>r{2,}\<close>\<close>
  "rep_2_up r = Then r (Then r (Many r))"

definition atext :: "char \<Rightarrow> bool" where
  \<comment> \<open>the class \<open>[^<>()\[\]\\.,;:\s@"]\<close>\<close>
  "atext c = (c \<notin> {CHR ''<'', CHR ''>'', CHR ''('', CHR '')'', CHR ''['', CHR '']'',
                    CHR 0x5C, CHR ''.'', CHR '','', CHR '';'', CHR '':'', CHR ''@'', CHR 0x22}
              \<and> \<not> is_space c)"

definition any_char :: "char \<Rightarrow> bool" where
  \<comment> \<open>\<open>.\<close>: every character but a line terminator\<close>
  "any_char c = (of_char c \<notin> {10, 13 :: nat})"

definition label_char :: "char \<Rightarrow> bool" where
  \<comment> \<open>the class \<open>[a-zA-Z\-0-9]\<close>\<close>
  "label_char c = (is_alpha c \<or> c = CHR ''-'' \<or> is_digit c)"

definition rx_local :: rx where
  \<comment> \<open>\<open>(([^...]+(\.[^...]+)*)|(".+"))\<close>\<close>
  "rx_local =
     Or (Then (some1 (Ch atext)) (Many (Then (lit CHR ''.'') (some1 (Ch atext)))))
        (Then (lit (CHR 0x22)) (Then (some1 (Ch any_char)) (lit (CHR 0x22))))"

definition rx_ip :: rx where
  \<comment> \<open>the alternative for a bracketed address: an opening bracket, four times \<open>[0-9]{1,3}\<close>
      separated by \<open>\.\<close>, a closing bracket\<close>
  "rx_ip =
     Then (lit CHR ''['')
      (Then (rep_1_3 (Ch is_digit)) (Then (lit CHR ''.'')
      (Then (rep_1_3 (Ch is_digit)) (Then (lit CHR ''.'')
      (Then (rep_1_3 (Ch is_digit)) (Then (lit CHR ''.'')
      (Then (rep_1_3 (Ch is_digit)) (lit CHR '']''))))))))"

definition rx_host :: rx where
  \<comment> \<open>\<open>(([a-zA-Z\-0-9]+\.)+[a-zA-Z]{2,})\<close>\<close>
  "rx_host =
     Then (some1 (Then (some1 (Ch label_char)) (lit CHR ''.''))) (rep_2_up (Ch is_alpha))"

definition email_regex :: rx where
  "email_regex = Then rx_local (Then (lit CHR ''@'') (Or rx_ip rx_host))"

section \<open>The pattern validator\<close>

definition resolvePattern :: "string \<Rightarrow> string list \<Rightarrow> bool" where
  "resolvePattern emailAddress invalidMailboxKeywords =
     (let mailbox = js_index (split_str CHR ''@'' emailAddress) 0;
          isValidPattern =
            (regex_test email_regex emailAddress
             \<or> indexOf invalidMailboxKeywords mailbox = -1)
      in isValidPattern)"

section \<open>Reading a status code\<close>

definition digit_value :: "char \<Rightarrow> nat option" where
  \<comment> \<open>the value of a digit of \<open>parseInt\<close>: \<open>0-9\<close>, then letters from 10 on\<close>
  "digit_value c =
     (let n = (of_char c :: nat)
      in if 48 \<le> n \<and> n \<le> 57 then Some (n - 48)
         else if 97 \<le> n \<and> n \<le> 122 then Some (n - 87)
         else if 65 \<le> n \<and> n \<le> 90 then Some (n - 55)
         else None)"

fun radix_prefix :: "nat \<Rightarrow> string \<Rightarrow> nat list" where
  \<comment> \<open>the digits of the longest prefix made of digits below the radix\<close>
  "radix_prefix R [] = []"
| "radix_prefix R (c # cs) =
     (case digit_value c of
        None \<Rightarrow> []
      | Some d \<Rightarrow> if d < R then d # radix_prefix R cs else [])"

definition radix_value :: "nat \<Rightarrow> nat list \<Rightarrow> nat" where
  "radix_value R ds = foldl (\<lambda>acc d. acc * R + d) 0 ds"

definition parseInt :: "string \<Rightarrow> int option" where
  \<comment> \<open>\<open>parseInt(s)\<close> with no radix argument; \<open>None\<close> is \<open>NaN\<close>\<close>
  "parseInt inputString =
     (let S = dropWhile is_space inputString;
          sign = (if take 1 S = ''-'' then - 1 else (1 :: int));
          S1 = (if take 1 S = ''+'' \<or> take 1 S = ''-'' then drop 1 S else S);
          hex = (take 2 S1 = ''0x'' \<or> take 2 S1 = ''0X'');
          R = (if hex then 16 else 10);
          S2 = (if hex then drop 2 S1 else S1);
          Z = radix_prefix R S2
      in if Z = [] then None else Some (sign * int (radix_value R Z)))"

definition js_gt :: "int option \<Rightarrow> int \<Rightarrow> bool" where
  \<comment> \<open>\<open>a > b\<close> on numbers: false when \<open>a\<close> is \<open>NaN\<close>\<close>
  "js_gt a b = (case a of None \<Rightarrow> False | Some n \<Rightarrow> n > b)"

section \<open>The SMTP probe\<close>

datatype js_error =
    Error string \<comment> \<open>an \<open>Error\<close> with its message\<close>
  | TypeError \<comment> \<open>raised by the runtime on a property read of \<open>undefined\<close>\<close>
  | RangeError \<comment> \<open>raised by \<open>setTimeout\<close> on a negative duration\<close>

datatype 'a outcome = Resolved 'a | Rejected js_error | Pending

record mx_record =
  priority :: int
  exchange :: string

record smtp_message =
  command :: "string option"
  message :: string
  status :: "int option"

text \<open>
  The probe is driven by the events of its socket. \<open>Data\<close> and \<open>SocketError\<close> are the
  two events it listens to (\<open>next\<close> is emitted by the data listener itself, synchronously).
  A \<open>Data\<close> event carries a chunk of the stream as the socket delivers it: one reply line,
  several, or a part of one;
  \<open>Timeout\<close> is the event the socket emits once it has been idle for the time given to
  \<open>setTimeout\<close>, and \<open>Unheard\<close> is any other event (\<open>connect\<close>, \<open>end\<close>, \<open>close\<close>).
  An event without a listener runs no code. The callback given to \<open>smtp.end\<close> is taken
  to run before the next event of the socket.
\<close>

datatype event = Data string | SocketError js_error | Timeout | Unheard string

record session =
  idle_timeout :: int \<comment> \<open>the argument of \<open>smtp.setTimeout\<close>\<close>
  step :: nat
  transcript :: "smtp_message list" \<comment> \<open>the local \<open>smtpMessages\<close>\<close>
  written :: "string list" \<comment> \<open>the arguments of \<open>smtp.write\<close>, in order\<close>
  ended :: bool \<comment> \<open>\<open>smtp.end\<close> was called\<close>
  promise :: "smtp_message list outcome" \<comment> \<open>\<open>Pending\<close> until \<open>resolve\<close> or \<open>reject\<close> is called\<close>

definition crlf :: string where
  "crlf = [CHR 0x0D, CHR 0x0A]"

definition commands_of :: "string \<Rightarrow> string \<Rightarrow> string \<Rightarrow> string list" where
  "commands_of host mailFrom emailAddress =
     [''HELO '' @ host,
      ''MAIL FROM: <'' @ mailFrom @ ''>'',
      ''RCPT TO: <'' @ emailAddress @ ''>'']"

definition js_str :: "string option \<Rightarrow> string" where
  \<comment> \<open>a value inside a string concatenation\<close>
  "js_str v = (case v of None \<Rightarrow> ''undefined'' | Some s \<Rightarrow> s)"

definition settle :: "smtp_message list outcome \<Rightarrow> session \<Rightarrow> session" where
  \<comment> \<open>\<open>resolve\<close> and \<open>reject\<close>: only the first call settles the promise\<close>
  "settle v s = (if promise s = Pending then s\<lparr>promise := v\<rparr> else s)"

definition smtp_end :: "smtp_message list outcome \<Rightarrow> session \<Rightarrow> session" where
  \<comment> \<open>\<open>smtp.end(callback)\<close>: the socket is ended and the callback settles the promise\<close>
  "smtp_end v s = settle v (s\<lparr>ended := True\<rparr>)"

definition on_next :: "string list \<Rightarrow> session \<Rightarrow> session" where
  "on_next commands s =
     (let stepMax = length commands - 1
      in if step s < stepMax
         then s\<lparr>written := written s @ [js_str (js_index commands (step s)) @ crlf],
                step := step s + 1\<rparr>
         else smtp_end (Resolved (transcript s)) s)"

definition on_error :: "js_error \<Rightarrow> session \<Rightarrow> session" where
  "on_error err s = smtp_end (Rejected err) s"

definition on_data :: "string list \<Rightarrow> string \<Rightarrow> session \<Rightarrow> session" where
  "on_data commands data s =
     (let status = parseInt (take 3 data);
          s1 = s\<lparr>transcript := transcript s @
                 [\<lparr>command = js_index commands (step s), message = data, status = status\<rparr>]\<rparr>
      in if js_gt status 200 then on_next commands s1 else s1)"

fun handle :: "string list \<Rightarrow> session \<Rightarrow> event \<Rightarrow> session" where
  "handle commands s (Data data) = on_data commands data s"
| "handle commands s (SocketError err) = on_error err s"
| "handle commands s Timeout = s"
| "handle commands s (Unheard name) = s"

definition connect :: "int \<Rightarrow> session" where
  "connect timeout_ms =
     \<lparr>idle_timeout = timeout_ms, step = 0, transcript = [], written = [],
      ended = False, promise = Pending\<rparr>"

definition refused :: "js_error \<Rightarrow> session" where
  \<comment> \<open>the executor threw before any listener was registered: the promise is rejected and
      no idle time is set on the socket\<close>
  "refused err =
     \<lparr>idle_timeout = 0, step = 0, transcript = [], written = [],
      ended = False, promise = Rejected err\<rparr>"

definition run_session ::
  "string \<Rightarrow> mx_record \<Rightarrow> int \<Rightarrow> string \<Rightarrow> event list \<Rightarrow> session" where
  \<comment> \<open>the session with the best exchange after the socket has delivered \<open>events\<close>;
      \<open>smtp.setTimeout\<close> throws on a negative duration, before the listeners are registered,
      and then no event runs any code\<close>
  "run_session emailAddress mx timeout_ms mailFrom events =
     (let host = exchange mx;
          commands = commands_of host mailFrom emailAddress
      in if timeout_ms < 0 then refused RangeError
         else foldl (handle commands) (connect timeout_ms) events)"

definition resolveSmtpMailbox ::
  "string \<Rightarrow> mx_record list \<Rightarrow> int \<Rightarrow> string \<Rightarrow> event list \<Rightarrow> smtp_message list outcome" where
  \<comment> \<open>with no record, \<open>mxRecords[0].exchange\<close> throws inside the promise, before the
      socket is created\<close>
  "resolveSmtpMailbox emailAddress mxRecords timeout_ms mailFrom events =
     (case mxRecords of
        [] \<Rightarrow> Rejected TypeError
      | mx # _ \<Rightarrow> promise (run_session emailAddress mx timeout_ms mailFrom events))"

section \<open>The MX resolver\<close>

fun insert_by :: "('a \<Rightarrow> 'a \<Rightarrow> int) \<Rightarrow> 'a \<Rightarrow> 'a list \<Rightarrow> 'a list" where
  "insert_by cmp x [] = [x]"
| "insert_by cmp x (y # ys) =
     (if cmp x y \<le> 0 then x # y # ys else y # insert_by cmp x ys)"

fun js_sort :: "('a \<Rightarrow> 'a \<Rightarrow> int) \<Rightarrow> 'a list \<Rightarrow> 'a list" where
  \<comment> \<open>\<open>xs.sort(cmp)\<close>, as a stable insertion sort\<close>
  "js_sort cmp [] = []"
| "js_sort cmp (x # xs) = insert_by cmp x (js_sort cmp xs)"

definition resolveMx ::
  "(string option \<Rightarrow> js_error + mx_record list) \<Rightarrow> string option \<Rightarrow> mx_record list outcome" where
  \<comment> \<open>\<open>dns\<close> is the answer of \<open>dns.resolveMx\<close>: an error or the records\<close>
  "resolveMx dns hostname =
     (case dns hostname of
        Inr mxRecords \<Rightarrow> Resolved (js_sort (\<lambda>a b. priority a - priority b) mxRecords)
      | Inl err \<Rightarrow> Resolved [])"

section \<open>The orchestrator\<close>

record config =
  cfg_emailAddress :: string
  cfg_invalidMailboxKeywords :: "string list option"
  cfg_timeout :: "int option"
  cfg_mailFrom :: "string option"

record state =
  emailAddress :: string
  timeout :: int
  invalidMailboxKeywords :: "string list"
  mailFrom :: string
  mailbox :: "string option"
  hostname :: "string option"
  mxRecords :: "mx_record list"
  smtpMessages :: "smtp_message list"
  isValidPattern :: bool
  isValidMx :: bool
  isValidMailbox :: bool
  result :: string

definition constructor :: "config \<Rightarrow> state" where
  \<comment> \<open>\<open>a || b\<close> is \<open>b\<close> when \<open>a\<close> is \<open>undefined\<close>, \<open>0\<close> or the empty string\<close>
  "constructor c =
     \<lparr>emailAddress = cfg_emailAddress c,
      timeout = (case cfg_timeout c of None \<Rightarrow> 2000 | Some t \<Rightarrow> if t = 0 then 2000 else t),
      invalidMailboxKeywords = (case cfg_invalidMailboxKeywords c of None \<Rightarrow> [] | Some ks \<Rightarrow> ks),
      mailFrom = (case cfg_mailFrom c of
                    None \<Rightarrow> ''email@example.org''
                  | Some f \<Rightarrow> if f = [] then ''email@example.org'' else f),
      mailbox = js_index (split_str CHR ''@'' (cfg_emailAddress c)) 0,
      hostname = js_index (split_str CHR ''@'' (cfg_emailAddress c)) 1,
      mxRecords = [],
      smtpMessages = [],
      isValidPattern = False,
      isValidMx = False,
      isValidMailbox = False,
      result = []\<rparr>"

text \<open>
  \<open>check\<close> mutates \<open>this.state\<close> and calls two collaborators through the instance methods
  \<open>_resolveMx\<close> and \<open>_resolveSmtpMailbox\<close>. A run of \<open>check\<close> carries the state together
  with the log of what it did: every assignment to a field of the state and every call of
  a collaborator, in order.
\<close>

datatype state_field =
  F_isValidPattern | F_result | F_mxRecords | F_isValidMx | F_smtpMessages | F_isValidMailbox

datatype effect =
    Assigned state_field
  | Called_resolveMx "string option"
  | Called_resolveSmtpMailbox string "mx_record list" int string

record run =
  this_state :: state
  effects :: "effect list"

datatype completion = Returns | Throws js_error | Hangs

definition begin_run :: "state \<Rightarrow> run" where
  "begin_run st = \<lparr>this_state = st, effects = []\<rparr>"

definition noted :: "effect \<Rightarrow> run \<Rightarrow> run" where
  "noted e r = r\<lparr>effects := effects r @ [e]\<rparr>"

definition set_isValidPattern :: "bool \<Rightarrow> run \<Rightarrow> run" where
  "set_isValidPattern v r =
     noted (Assigned F_isValidPattern) (r\<lparr>this_state := (this_state r)\<lparr>isValidPattern := v\<rparr>\<rparr>)"

definition set_result :: "string \<Rightarrow> run \<Rightarrow> run" where
  "set_result v r =
     noted (Assigned F_result) (r\<lparr>this_state := (this_state r)\<lparr>result := v\<rparr>\<rparr>)"

definition set_mxRecords :: "mx_record list \<Rightarrow> run \<Rightarrow> run" where
  "set_mxRecords v r =
     noted (Assigned F_mxRecords) (r\<lparr>this_state := (this_state r)\<lparr>mxRecords := v\<rparr>\<rparr>)"

definition set_isValidMx :: "bool \<Rightarrow> run \<Rightarrow> run" where
  "set_isValidMx v r =
     noted (Assigned F_isValidMx) (r\<lparr>this_state := (this_state r)\<lparr>isValidMx := v\<rparr>\<rparr>)"

definition set_smtpMessages :: "smtp_message list \<Rightarrow> run \<Rightarrow> run" where
  "set_smtpMessages v r =
     noted (Assigned F_smtpMessages) (r\<lparr>this_state := (this_state r)\<lparr>smtpMessages := v\<rparr>\<rparr>)"

definition set_isValidMailbox :: "bool \<Rightarrow> run \<Rightarrow> run" where
  "set_isValidMailbox v r =
     noted (Assigned F_isValidMailbox) (r\<lparr>this_state := (this_state r)\<lparr>isValidMailbox := v\<rparr>\<rparr>)"

type_synonym resolver = "string option \<Rightarrow> mx_record list outcome"

type_synonym prober =
  "string \<Rightarrow> mx_record list \<Rightarrow> int \<Rightarrow> string \<Rightarrow> smtp_message list outcome"

definition mailbox_check :: "prober \<Rightarrow> run \<Rightarrow> run \<times> completion" where
  \<comment> \<open>the second \<open>try\<close> block of \<open>check\<close>; destructuring \<open>undefined\<close> throws inside it\<close>
  "mailbox_check probe r =
     (let st = this_state r;
          r1 = noted (Called_resolveSmtpMailbox
                        (emailAddress st) (mxRecords st) (timeout st) (mailFrom st)) r
      in case probe (emailAddress st) (mxRecords st) (timeout st) (mailFrom st) of
           Rejected err \<Rightarrow> (r1, Throws (Error ''Mailbox check failed.''))
         | Pending \<Rightarrow> (r1, Hangs)
         | Resolved msgs \<Rightarrow>
             (let r2 = set_smtpMessages msgs r1;
                  isComplete = (length msgs = 3)
              in if isComplete
                 then (case js_index msgs 2 of
                         None \<Rightarrow> (r2, Throws (Error ''Mailbox check failed.''))
                       | Some m \<Rightarrow>
                           if status m = Some 250
                           then (set_isValidMailbox True (set_result ''Mailbox is valid.'' r2),
                                 Returns)
                           else (set_isValidMailbox False (set_result ''Mailbox is invalid.'' r2),
                                 Returns))
                 else (set_isValidMailbox False (set_result ''Could not validate mailbox.'' r2),
                       Returns)))"

definition mx_check :: "resolver \<Rightarrow> prober \<Rightarrow> run \<Rightarrow> run \<times> completion" where
  \<comment> \<open>the first \<open>try\<close> block of \<open>check\<close>, and what follows it\<close>
  "mx_check resolve probe r =
     (let r1 = noted (Called_resolveMx (hostname (this_state r))) r
      in case resolve (hostname (this_state r)) of
           Rejected err \<Rightarrow> (r1, Throws (Error ''MX record check failed.''))
         | Pending \<Rightarrow> (r1, Hangs)
         | Resolved recs \<Rightarrow>
             (let isValidMx = (length recs > 0);
                  r2 = set_isValidMx isValidMx (set_mxRecords recs r1)
              in if \<not> isValidMx
                 then (set_result ''Email server is invalid or not available.'' r2, Returns)
                 else mailbox_check probe r2))"

definition check_with :: "resolver \<Rightarrow> prober \<Rightarrow> state \<Rightarrow> run \<times> completion" where
  \<comment> \<open>\<open>check\<close>, over what \<open>_resolveMx\<close> and \<open>_resolveSmtpMailbox\<close> answer\<close>
  "check_with resolve probe st =
     (let isValidPattern = resolvePattern (emailAddress st) (invalidMailboxKeywords st);
          r1 = set_isValidPattern isValidPattern (begin_run st)
      in if \<not> isValidPattern
         then (set_result ''Email pattern is invalid.'' r1, Returns)
         else mx_check resolve probe r1)"

definition probe_over :: "event list \<Rightarrow> prober" where
  \<comment> \<open>\<open>resolveSmtpMailbox\<close> on a socket that delivers \<open>events\<close>\<close>
  "probe_over events =
     (\<lambda>emailAddress mxRecords timeout_ms mailFrom.
        resolveSmtpMailbox emailAddress mxRecords timeout_ms mailFrom events)"

definition check ::
  "(string option \<Rightarrow> js_error + mx_record list) \<Rightarrow> event list \<Rightarrow> state \<Rightarrow> run \<times> completion" where
  \<comment> \<open>\<open>check\<close> with the class's own collaborators, over the answer of the DNS and the
      events of the socket\<close>
  "check dns events st = check_with (resolveMx dns) (probe_over events) st"

fun assigned_fields :: "effect list \<Rightarrow> state_field list" where
  "assigned_fields [] = []"
| "assigned_fields (Assigned f # es) = f # assigned_fields es"
| "assigned_fields (e # es) = assigned_fields es"

fun is_mx_call :: "effect \<Rightarrow> bool" where
  "is_mx_call (Called_resolveMx h) = True"
| "is_mx_call e = False"

fun is_probe_call :: "effect \<Rightarrow> bool" where
  "is_probe_call (Called_resolveSmtpMailbox e m t f) = True"
| "is_probe_call e = False"

section \<open>Notions used to state the properties\<close>

definition local_part :: "string \<Rightarrow> string" where
  \<comment> \<open>the substring before the first \<open>@\<close>, the whole string when there is none\<close>
  "local_part email = takeWhile (\<lambda>c. c \<noteq> CHR ''@'') email"

definition wire :: "string list \<Rightarrow> nat \<Rightarrow> string list" where
  \<comment> \<open>the first \<open>n\<close> commands as lines on the wire\<close>
  "wire cmds n = map (\<lambda>c. c @ crlf) (take n cmds)"

fun cut_lines :: "string \<Rightarrow> string \<Rightarrow> string list" where
  \<comment> \<open>\<open>cur\<close> holds the characters of the line being read, last one first\<close>
  "cut_lines cur [] = (if cur = [] then [] else [rev cur])"
| "cut_lines cur [c] = [rev (c # cur)]"
| "cut_lines cur (c # d # rest) =
     (if c = CHR 0x0D \<and> d = CHR 0x0A then rev cur # cut_lines [] rest
      else cut_lines (c # cur) (d # rest))"

definition reply_lines :: "string \<Rightarrow> string list" where
  \<comment> \<open>the lines of a chunk, each ended by CR LF but possibly the last\<close>
  "reply_lines chunk = cut_lines [] chunk"

definition final_state :: "run \<times> completion \<Rightarrow> state" where
  "final_state rc = this_state (fst rc)"

definition effects_of :: "run \<times> completion \<Rightarrow> effect list" where
  "effects_of rc = effects (fst rc)"

definition completion_of :: "run \<times> completion \<Rightarrow> completion" where
  "completion_of rc = snd rc"

text \<open>Instances and collaborators on which the properties are exercised.\<close>

definition sample_state :: state where
  "sample_state =
     constructor \<lparr>cfg_emailAddress = ''user@example.com'', cfg_invalidMailboxKeywords = None,
                  cfg_timeout = None, cfg_mailFrom = None\<rparr>"

definition denied_state :: state where
  "denied_state =
     constructor \<lparr>cfg_emailAddress = ''noreply'', cfg_invalidMailboxKeywords = Some [''noreply''],
                  cfg_timeout = Some 500, cfg_mailFrom = Some ''probe@example.org''\<rparr>"

definition sample_dns :: "string option \<Rightarrow> js_error + mx_record list" where
  "sample_dns h =
     (if h = Some ''example.com''
      then Inr [\<lparr>priority = 20, exchange = ''mx2.example.com''\<rparr>,
                \<lparr>priority = 10, exchange = ''mx1.example.com''\<rparr>]
      else Inl (Error ''queryMx ENOTFOUND''))"

definition failing_dns :: "string option \<Rightarrow> js_error + mx_record list" where
  "failing_dns h = Inl (Error ''queryMx ENOTFOUND'')"

section \<open>Properties of the pattern validator\<close>

lemmas rx_defs = email_regex_def rx_local_def rx_host_def rx_ip_def some1_def opt_def
  rep_1_3_def rep_2_up_def lit_def atext_def any_char_def label_char_def is_alpha_def
  is_digit_def is_space_def

text \<open>The matcher decides membership in the language of the expression.\<close>

lemma nullable_lang: "nullable r = ([] \<in> lang r)"
  by (induction r) (auto intro: iter_nil)

lemma iter_cons_split:
  assumes "w \<in> iter A" and "w = c # x"
  shows "\<exists>u v. x = u @ v \<and> c # u \<in> A \<and> v \<in> iter A"
  using assms
proof (induction arbitrary: x rule: iter.induct)
  case iter_nil
  then show ?case by simp
next
  case (iter_more u v)
  show ?case
  proof (cases u)
    case Nil
    with iter_more show ?thesis by simp
  next
    case (Cons a u')
    with iter_more.prems have "x = u' @ v" and "a = c" by simp_all
    with Cons iter_more.hyps show ?thesis by blast
  qed
qed

lemma after_lang: "lang (after c r) = {w. c # w \<in> lang r}"
proof (induction r)
  case (Then r s)
  have "{w. c # w \<in> lang (Then r s)}
          = {u @ v | u v. c # u \<in> lang r \<and> v \<in> lang s}
            \<union> (if [] \<in> lang r then {w. c # w \<in> lang s} else {})"
    by (auto simp: Cons_eq_append_conv)
  with Then show ?case by (auto simp: nullable_lang)
next
  case (Many r)
  have "{w. c # w \<in> iter (lang r)} = {u @ v | u v. c # u \<in> lang r \<and> v \<in> iter (lang r)}"
  proof (intro equalityI subsetI)
    fix w assume "w \<in> {w. c # w \<in> iter (lang r)}"
    then show "w \<in> {u @ v | u v. c # u \<in> lang r \<and> v \<in> iter (lang r)}"
      using iter_cons_split [of "c # w" "lang r" c w] by auto
  next
    fix w assume "w \<in> {u @ v | u v. c # u \<in> lang r \<and> v \<in> iter (lang r)}"
    then obtain u v where "w = u @ v" "c # u \<in> lang r" "v \<in> iter (lang r)" by blast
    then show "w \<in> {w. c # w \<in> iter (lang r)}"
      using iter_more [of "c # u" "lang r" v] by simp
  qed
  with Many show ?case by simp
qed auto

lemma regex_test_lang: "regex_test r w = (w \<in> lang r)"
  by (induction w arbitrary: r) (simp_all add: nullable_lang after_lang)

lemma split_str_first:
  "js_index (split_str c s) 0 = Some (takeWhile (\<lambda>x. x \<noteq> c) s)"
  by (induction s) (auto simp: js_index_def split: list.splits)

lemma indexOf_lower: "- 1 \<le> indexOf ks v"
  by (induction ks) (auto simp: Let_def)

lemma indexOf_absent: "(indexOf ks (Some m) = - 1) = (m \<notin> set ks)"
proof (induction ks)
  case Nil
  show ?case by simp
next
  case (Cons k ks)
  have "indexOf ks (Some m) + 1 \<noteq> - 1"
    using indexOf_lower [of ks "Some m"] by arith
  with Cons show ?case by (auto simp: Let_def)
qed

text \<open>
  Claim C6. \<open>resolvePattern\<close> answers true exactly when the address matches the regular
  expression or its local part, the substring before \<open>@\<close>, is not an element of the
  deny-list. So an address that fails the expression is still valid when its local part
  is not denied. The answer is a function of the two arguments alone: the expression
  has no flag that would keep a position between two calls.
\<close>

theorem resolvePattern_regex_or_not_denied:
  "resolvePattern email denyList =
     (regex_test email_regex email \<or> local_part email \<notin> set denyList)"
  by (simp add: resolvePattern_def local_part_def split_str_first indexOf_absent)

theorem resolvePattern_regex_or_not_denied_witness:
  "resolvePattern ''noreply@example.com'' [''noreply'']
   \<and> resolvePattern ''not an address'' [''noreply'']
   \<and> \<not> resolvePattern ''noreply'' [''noreply'']"
  using resolvePattern_regex_or_not_denied [of "''noreply@example.com''" "[''noreply'']"]
        resolvePattern_regex_or_not_denied [of "''not an address''" "[''noreply'']"]
        resolvePattern_regex_or_not_denied [of "''noreply''" "[''noreply'']"]
  by (simp add: local_part_def rx_defs)

text \<open>
  Claim C7. With the empty deny-list, which is the default, \<open>resolvePattern\<close> answers true
  for every string, whether or not it matches the expression or holds an \<open>@\<close>.
\<close>

theorem resolvePattern_empty_denyList: "resolvePattern email [] = True"
  by (simp add: resolvePattern_def)

section \<open>Properties of the MX resolver\<close>

lemma insert_by_mset: "mset (insert_by cmp x xs) = add_mset x (mset xs)"
  by (induction xs) auto

lemma js_sort_mset: "mset (js_sort cmp xs) = mset xs"
  by (induction xs) (auto simp: insert_by_mset)

lemma insert_by_set: "set (insert_by cmp x xs) = insert x (set xs)"
  by (induction xs) auto

lemma insert_by_priority_sorted:
  "sorted_wrt (\<lambda>a b. priority a \<le> priority b) xs \<Longrightarrow>
   sorted_wrt (\<lambda>a b. priority a \<le> priority b)
     (insert_by (\<lambda>a b. priority a - priority b) x xs)"
  by (induction xs) (auto simp: insert_by_set)

lemma js_sort_priority_sorted:
  "sorted_wrt (\<lambda>a b. priority a \<le> priority b)
     (js_sort (\<lambda>a b. priority a - priority b) xs)"
  by (induction xs) (auto simp: insert_by_priority_sorted)

text \<open>
  Claim C9. \<open>resolveMx\<close> never throws: whatever the DNS answers for a hostname, its promise
  is resolved. When the DNS fails the value is the empty list; when the DNS answers, the
  value holds the records of the answer in ascending order of priority.
\<close>

theorem resolveMx_never_throws_sorted:
  "(\<exists>recs. resolveMx dns host = Resolved recs)
   \<and> (\<forall>err. dns host = Inl err \<longrightarrow> resolveMx dns host = Resolved [])
   \<and> (\<forall>answer. dns host = Inr answer \<longrightarrow>
        (\<exists>recs. resolveMx dns host = Resolved recs
           \<and> sorted_wrt (\<lambda>a b. priority a \<le> priority b) recs
           \<and> mset recs = mset answer))"
  by (auto simp: resolveMx_def js_sort_priority_sorted js_sort_mset split: sum.splits)

theorem resolveMx_never_throws_sorted_witness:
  "resolveMx (\<lambda>h. Inl (Error ''queryMx ENOTFOUND'')) (Some ''nowhere.test'') = Resolved []
   \<and> resolveMx (\<lambda>h. Inr [\<lparr>priority = 20, exchange = ''mx2.example.com''\<rparr>,
                          \<lparr>priority = 10, exchange = ''mx1.example.com''\<rparr>])
        (Some ''example.com'')
      = Resolved [\<lparr>priority = 10, exchange = ''mx1.example.com''\<rparr>,
                  \<lparr>priority = 20, exchange = ''mx2.example.com''\<rparr>]"
  using resolveMx_never_throws_sorted
          [of "\<lambda>h. Inl (Error ''queryMx ENOTFOUND'')" "Some ''nowhere.test''"]
        resolveMx_never_throws_sorted
          [of "\<lambda>h. Inr [\<lparr>priority = 20, exchange = ''mx2.example.com''\<rparr>,
                         \<lparr>priority = 10, exchange = ''mx1.example.com''\<rparr>]"
              "Some ''example.com''"]
  by (simp add: resolveMx_def)

section \<open>Properties of the SMTP probe\<close>

lemmas handler_defs = on_data_def on_next_def on_error_def smtp_end_def settle_def

lemmas eval_defs = run_session_def connect_def refused_def commands_of_def handler_defs Let_def
  js_index_def
  js_str_def js_gt_def parseInt_def radix_value_def digit_value_def is_space_def crlf_def

lemma commands_of_length [simp]: "length (commands_of h f e) = 3"
  by (simp add: commands_of_def)

lemma handle_step_bound:
  "length cmds = 3 \<Longrightarrow> step s \<le> 2 \<Longrightarrow> step (handle cmds s ev) \<le> 2"
  by (cases ev) (auto simp: handler_defs Let_def)

lemma foldl_handle_step_bound:
  "length cmds = 3 \<Longrightarrow> step s \<le> 2 \<Longrightarrow> step (foldl (handle cmds) s evs) \<le> 2"
proof (induction evs arbitrary: s)
  case Nil
  then show ?case by simp
next
  case (Cons ev evs)
  from Cons.prems have "step (handle cmds s ev) \<le> 2" by (rule handle_step_bound)
  with Cons.IH [OF Cons.prems(1)] show ?case by simp
qed

lemma run_session_listening:
  "0 \<le> t \<Longrightarrow>
   run_session e mx t f evs = foldl (handle (commands_of (exchange mx) f e)) (connect t) evs"
  by (simp add: run_session_def Let_def)

lemma run_session_refused: "t < 0 \<Longrightarrow> run_session e mx t f evs = refused RangeError"
  by (simp add: run_session_def Let_def)

lemma run_session_step_bound: "step (run_session e mx t f evs) \<le> 2"
proof (cases "t < 0")
  case True
  then show ?thesis by (simp add: run_session_refused refused_def)
next
  case False
  then have "0 \<le> t" by simp
  then have eq: "run_session e mx t f evs
      = foldl (handle (commands_of (exchange mx) f e)) (connect t) evs"
    by (rule run_session_listening)
  show ?thesis
    unfolding eq by (rule foldl_handle_step_bound) (simp_all add: connect_def)
qed

lemma run_session_snoc:
  "0 \<le> t \<Longrightarrow>
   run_session e mx t f (evs @ [ev]) =
     handle (commands_of (exchange mx) f e) (run_session e mx t f evs) ev"
  by (simp add: run_session_listening)

lemma wire_Suc: "n < length cmds \<Longrightarrow> wire cmds (Suc n) = wire cmds n @ [cmds ! n @ crlf]"
  by (simp add: wire_def take_Suc_conv_app_nth)

lemma handle_written:
  assumes "length cmds = 3" and "step s \<le> 2" and "written s = wire cmds (step s)"
  shows "written (handle cmds s ev) = wire cmds (step (handle cmds s ev))"
  using assms
  by (cases ev) (auto simp: handler_defs Let_def js_index_def js_str_def wire_Suc)

lemma foldl_handle_written:
  "length cmds = 3 \<Longrightarrow> step s \<le> 2 \<Longrightarrow> written s = wire cmds (step s) \<Longrightarrow>
   written (foldl (handle cmds) s evs) = wire cmds (step (foldl (handle cmds) s evs))"
proof (induction evs arbitrary: s)
  case Nil
  then show ?case by simp
next
  case (Cons ev evs)
  have a: "step (handle cmds s ev) \<le> 2"
    using Cons.prems(1,2) by (rule handle_step_bound)
  have b: "written (handle cmds s ev) = wire cmds (step (handle cmds s ev))"
    using Cons.prems by (rule handle_written)
  from Cons.IH [OF Cons.prems(1) a b] show ?case by simp
qed

lemma run_session_written:
  "written (run_session e mx t f evs) =
     wire (commands_of (exchange mx) f e) (step (run_session e mx t f evs))"
proof (cases "t < 0")
  case True
  then show ?thesis by (simp add: run_session_refused refused_def wire_def)
next
  case False
  then have "0 \<le> t" by simp
  then have eq: "run_session e mx t f evs
      = foldl (handle (commands_of (exchange mx) f e)) (connect t) evs"
    by (rule run_session_listening)
  show ?thesis
    unfolding eq by (rule foldl_handle_written) (simp_all add: connect_def wire_def)
qed

lemma probe_never_writes_rcpt:
  "length (written (run_session e mx t f evs)) \<le> 2
   \<and> (''RCPT TO: <'' @ e @ ''>'') @ crlf \<notin> set (written (run_session e mx t f evs))"
proof -
  let ?s = "run_session e mx t f evs"
  let ?cmds = "commands_of (exchange mx) f e"
  have b: "step ?s \<le> 2" by (rule run_session_step_bound)
  have w: "written ?s = wire ?cmds (step ?s)" by (rule run_session_written)
  have "set (take (step ?s) ?cmds) \<subseteq> set (take 2 ?cmds)"
    using b by (rule set_take_subset_set_take)
  then have "set (written ?s) \<subseteq> {(''HELO '' @ exchange mx) @ crlf, (''MAIL FROM: <'' @ f @ ''>'') @ crlf}"
    unfolding w wire_def by (auto simp: commands_of_def numeral_2_eq_2)
  moreover have "length (written ?s) \<le> 2"
    unfolding w wire_def using b by simp
  ultimately show ?thesis by auto
qed

text \<open>A transcript that the probe resolves with has at least three entries.\<close>

lemma handle_resolved_length:
  assumes "length cmds = 3" and "step s \<le> 2" and "step s \<le> length (transcript s)"
    and "\<forall>msgs. promise s = Resolved msgs \<longrightarrow> 3 \<le> length msgs"
  shows "step (handle cmds s ev) \<le> length (transcript (handle cmds s ev))
    \<and> (\<forall>msgs. promise (handle cmds s ev) = Resolved msgs \<longrightarrow> 3 \<le> length msgs)"
  using assms by (cases ev) (auto simp: handler_defs Let_def)

lemma foldl_handle_resolved_length:
  "length cmds = 3 \<Longrightarrow> step s \<le> 2 \<Longrightarrow> step s \<le> length (transcript s) \<Longrightarrow>
   \<forall>msgs. promise s = Resolved msgs \<longrightarrow> 3 \<le> length msgs \<Longrightarrow>
   \<forall>msgs. promise (foldl (handle cmds) s evs) = Resolved msgs \<longrightarrow> 3 \<le> length msgs"
proof (induction evs arbitrary: s)
  case Nil
  then show ?case by simp
next
  case (Cons ev evs)
  have a: "step (handle cmds s ev) \<le> 2"
    using Cons.prems(1,2) by (rule handle_step_bound)
  note b = handle_resolved_length [OF Cons.prems, of ev]
  from Cons.IH [OF Cons.prems(1) a] b show ?case by simp
qed

lemma resolved_transcript_length:
  assumes "resolveSmtpMailbox e ms t f evs = Resolved msgs"
  shows "3 \<le> length msgs"
proof (cases ms)
  case Nil
  with assms show ?thesis by (simp add: resolveSmtpMailbox_def)
next
  case (Cons mx rest)
  have "\<forall>msgs. promise (foldl (handle (commands_of (exchange mx) f e)) (connect t) evs)
          = Resolved msgs \<longrightarrow> 3 \<le> length msgs"
    by (rule foldl_handle_resolved_length) (simp_all add: connect_def)
  with assms Cons show ?thesis
    by (cases "t < 0")
      (simp_all add: resolveSmtpMailbox_def run_session_def Let_def refused_def)
qed

text \<open>
  A status greater than 200 can only be read from three decimal digits: white space, a
  sign or a hexadecimal prefix leave too few characters among the first three.
\<close>

lemma radix_prefix_length: "length (radix_prefix R s) \<le> length s"
  by (induction s) (auto split: option.splits)

lemma radix_prefix_below: "d \<in> set (radix_prefix R s) \<Longrightarrow> d < R"
  by (induction s) (auto split: option.splits if_splits)

lemma radix_prefix_whole:
  "length (radix_prefix 10 s) = length s \<Longrightarrow> list_all is_digit s"
proof (induction s)
  case Nil
  show ?case by simp
next
  case (Cons c s)
  from Cons.prems obtain d where d: "digit_value c = Some d" "d < 10"
    and l: "length (radix_prefix 10 s) = length s"
    by (auto split: option.splits if_splits)
  from d have "is_digit c"
    by (auto simp: digit_value_def is_digit_def Let_def split: if_splits)
  with Cons.IH [OF l] show ?case by simp
qed

lemma foldl_radix_bound:
  fixes R :: nat
  shows "\<forall>d \<in> set ds. d < R \<Longrightarrow> acc < R ^ k \<Longrightarrow>
   foldl (\<lambda>acc d. acc * R + d) acc ds < R ^ (k + length ds)"
proof (induction ds arbitrary: acc k)
  case Nil
  then show ?case by simp
next
  case (Cons d ds)
  have "d < R" using Cons.prems(1) by simp
  then have "acc * R + d < (acc + 1) * R" by (simp add: add_mult_distrib)
  also have "\<dots> \<le> R ^ k * R"
  proof (rule mult_le_mono1)
    show "acc + 1 \<le> R ^ k" using Cons.prems(2) by simp
  qed
  finally have "acc * R + d < R ^ (k + 1)" by (simp add: mult.commute)
  from Cons.IH [OF _ this] Cons.prems(1) show ?case by simp
qed

lemma radix_value_bound: "radix_value R (radix_prefix R s) < R ^ length (radix_prefix R s)"
proof (cases "R = 0")
  case True
  have "radix_prefix 0 s = []" by (cases s) (auto split: option.splits)
  with True show ?thesis by (simp add: radix_value_def)
next
  case False
  then have "(0::nat) < R ^ 0" by simp
  from foldl_radix_bound [OF _ this, of "radix_prefix R s"] radix_prefix_below
  show ?thesis by (auto simp: radix_value_def)
qed

lemma status_above_200_is_three_digits:
  assumes "js_gt (parseInt (take 3 d)) 200"
  shows "3 \<le> length d \<and> list_all is_digit (take 3 d)"
proof -
  define w where "w = take 3 d"
  define S where "S = dropWhile is_space w"
  define S1 where "S1 = (if take 1 S = ''+'' \<or> take 1 S = ''-'' then drop 1 S else S)"
  define hex where "hex = (take 2 S1 = ''0x'' \<or> take 2 S1 = ''0X'')"
  define R :: nat where "R = (if hex then 16 else 10)"
  define S2 where "S2 = (if hex then drop 2 S1 else S1)"
  define Z where "Z = radix_prefix R S2"
  have lw: "length w \<le> 3" by (simp add: w_def)
  have lS: "length S \<le> length w" by (simp add: S_def length_dropWhile_le)
  have lS1: "length S1 \<le> length S" by (simp add: S1_def)
  have lS2: "length S2 \<le> length S1" by (simp add: S2_def)
  have lZ: "length Z \<le> length S2" by (simp add: Z_def radix_prefix_length)
  have P: "parseInt w =
      (if Z = [] then None
       else Some ((if take 1 S = ''-'' then - 1 else 1) * int (radix_value R Z)))"
    unfolding parseInt_def Let_def Z_def S2_def R_def hex_def S1_def S_def by simp
  from assms have "js_gt (parseInt w) 200" by (simp add: w_def)
  then have big: "200 < radix_value R Z"
    unfolding P by (auto simp: js_gt_def split: if_splits)
  have bound: "radix_value R Z < R ^ length Z"
    unfolding Z_def by (rule radix_value_bound)
  have nothex: "\<not> hex"
  proof
    assume h: hex
    then have "2 \<le> length S1"
      unfolding hex_def by (auto dest!: arg_cong [where f = length])
    with h lS1 lS lw have "length S2 \<le> 1" by (simp add: S2_def)
    with lZ have "length Z \<le> 1" by simp
    then have "R ^ length Z \<le> 16" using h
      by (cases "length Z") (auto simp: R_def)
    with bound big show False by simp
  qed
  then have R10: "R = 10" by (simp add: R_def)
  have "length Z = 3"
  proof (rule ccontr)
    assume "length Z \<noteq> 3"
    with lZ lS2 lS1 lS lw have "length Z \<le> 2" by simp
    then have "(10::nat) ^ length Z \<le> 10 ^ 2" by (intro power_increasing) simp_all
    with bound big R10 show False by simp
  qed
  with lZ lS2 lS1 lS lw have eq: "length S2 = 3" "length S1 = 3" "length S = 3" "length w = 3"
    by simp_all
  from eq(3,4) have "S = w"
    unfolding S_def
    by (metis dropWhile_eq_drop length_drop drop0 diff_self_eq_0 length_takeWhile_le
        diff_diff_cancel)
  moreover from eq(2,3) have "S1 = S" by (auto simp: S1_def split: if_splits)
  moreover from nothex have "S2 = S1" by (simp add: S2_def)
  ultimately have "S2 = w" by simp
  with \<open>length Z = 3\<close> eq R10 have "length (radix_prefix 10 w) = length w"
    by (simp add: Z_def)
  then have "list_all is_digit w" by (rule radix_prefix_whole)
  with eq(4) show ?thesis by (auto simp: w_def)
qed

text \<open>
  Claim C2, as the code has it. The listener runs once for every chunk of data that a
  probe with registered listeners receives (the duration given to \<open>setTimeout\<close> is not
  negative), whether the chunk holds one reply line, several or a part of one. It
  appends exactly one entry to the transcript, pairing \<open>commands[step]\<close> with the chunk and
  with the number that \<open>parseInt\<close> reads from its first three characters. While fewer than
  two commands have been written, it writes \<open>commands[step]\<close> and advances the step counter
  if and only if that status is greater than 200. When the status is not greater than
  200, handling the chunk changes the transcript only: nothing is written, the step
  counter stays, the socket is not ended and the promise is not settled. The session
  keeps no memory of such a chunk, so a later chunk with a status greater than 200
  advances as any other. A status greater than 200 is always read from three leading
  digits. What a status greater than 200 does once two commands have been written is
  left out here.
\<close>

theorem chunk_appends_and_advances:
  fixes email :: string and mx :: mx_record and t :: int and sender :: string
    and evs :: "event list" and d :: string
  assumes "0 \<le> t"
  defines "s \<equiv> run_session email mx t sender evs"
    and "s' \<equiv> run_session email mx t sender (evs @ [Data d])"
    and "code \<equiv> parseInt (take 3 d)"
    and "cmds \<equiv> commands_of (exchange mx) sender email"
  shows "transcript s' = transcript s @
           [\<lparr>command = js_index cmds (step s), message = d, status = code\<rparr>]
    \<and> (step s < 2 \<longrightarrow>
         ((written s' = written s @ [(cmds ! step s) @ crlf] \<and> step s' = step s + 1)
          \<longleftrightarrow> js_gt code 200))
    \<and> (\<not> js_gt code 200 \<longrightarrow>
         written s' = written s \<and> step s' = step s \<and> ended s' = ended s
         \<and> promise s' = promise s)
    \<and> (js_gt code 200 \<longrightarrow> 3 \<le> length d \<and> list_all is_digit (take 3 d))"
proof -
  have n: "s' = on_data cmds d s"
    unfolding s_def s'_def cmds_def using assms(1) by (simp add: run_session_snoc)
  have i: "step s < 2 \<longrightarrow> js_index cmds (step s) = Some (cmds ! step s)"
    by (simp add: js_index_def cmds_def)
  have digits: "js_gt code 200 \<longrightarrow> 3 \<le> length d \<and> list_all is_digit (take 3 d)"
    unfolding code_def using status_above_200_is_three_digits [of d] by blast
  have "transcript s' = transcript s @
           [\<lparr>command = js_index cmds (step s), message = d, status = code\<rparr>]
    \<and> (step s < 2 \<longrightarrow>
         ((written s' = written s @ [(cmds ! step s) @ crlf] \<and> step s' = step s + 1)
          \<longleftrightarrow> js_gt code 200))
    \<and> (\<not> js_gt code 200 \<longrightarrow>
         written s' = written s \<and> step s' = step s \<and> ended s' = ended s
         \<and> promise s' = promise s)"
    using i by (auto simp: n code_def handler_defs Let_def js_str_def cmds_def)
  with digits show ?thesis by blast
qed

theorem chunk_appends_and_advances_witness:
  "(0::int) \<le> 2000
   \<and> js_gt (parseInt (take 3 ''250 mx.example.com'')) 200
   \<and> step (run_session ''user@example.com'' \<lparr>priority = 10, exchange = ''mx.example.com''\<rparr>
              2000 ''email@example.org'' [Data ''220 mx.example.com ESMTP'']) < 2
   \<and> written (run_session ''user@example.com'' \<lparr>priority = 10, exchange = ''mx.example.com''\<rparr>
              2000 ''email@example.org''
              ([Data ''220 mx.example.com ESMTP''] @ [Data ''250 mx.example.com'']))
       = written (run_session ''user@example.com'' \<lparr>priority = 10, exchange = ''mx.example.com''\<rparr>
              2000 ''email@example.org'' [Data ''220 mx.example.com ESMTP''])
         @ [''MAIL FROM: <email@example.org>'' @ crlf]
   \<and> \<not> js_gt (parseInt (take 3 ''120 wait'')) 200
   \<and> written (run_session ''user@example.com'' \<lparr>priority = 10, exchange = ''mx.example.com''\<rparr>
              2000 ''email@example.org''
              ([Data ''220 mx.example.com ESMTP''] @ [Data ''120 wait'']))
       = written (run_session ''user@example.com'' \<lparr>priority = 10, exchange = ''mx.example.com''\<rparr>
              2000 ''email@example.org'' [Data ''220 mx.example.com ESMTP''])"
proof -
  have t: "(0::int) \<le> 2000" by simp
  have a: "js_gt (parseInt (take 3 ''250 mx.example.com'')) 200"
    by (simp add: eval_defs)
  have b: "step (run_session ''user@example.com'' \<lparr>priority = 10, exchange = ''mx.example.com''\<rparr>
              2000 ''email@example.org'' [Data ''220 mx.example.com ESMTP'']) < 2"
    by (simp add: eval_defs)
  have c: "\<not> js_gt (parseInt (take 3 ''120 wait'')) 200"
    by (simp add: eval_defs)
  have d: "commands_of (exchange \<lparr>priority = 10, exchange = ''mx.example.com''\<rparr>)
             ''email@example.org'' ''user@example.com''
           ! step (run_session ''user@example.com'' \<lparr>priority = 10, exchange = ''mx.example.com''\<rparr>
              2000 ''email@example.org'' [Data ''220 mx.example.com ESMTP''])
           = ''MAIL FROM: <email@example.org>''"
    by (simp add: eval_defs)
  show ?thesis
    using a b c d
      chunk_appends_and_advances [OF t, where d = "''250 mx.example.com''"
        and email = "''user@example.com''"
        and mx = "\<lparr>priority = 10, exchange = ''mx.example.com''\<rparr>"
        and sender = "''email@example.org''" and evs = "[Data ''220 mx.example.com ESMTP'']"]
      chunk_appends_and_advances [OF t, where d = "''120 wait''"
        and email = "''user@example.com''"
        and mx = "\<lparr>priority = 10, exchange = ''mx.example.com''\<rparr>"
        and sender = "''email@example.org''" and evs = "[Data ''220 mx.example.com ESMTP'']"]
    by simp
qed

text \<open>
  Against claim C2 as it was written: a server answers \<open>120 wait\<close>, then a greeting of
  two lines in one chunk. The three reply lines leave two entries in the transcript, one
  for each chunk, and the session that wrote nothing after the status 120 writes \<open>HELO\<close>
  on the next chunk.
\<close>

theorem stalled_session_resumes:
  "reply_lines (''120 wait'' @ crlf) = [''120 wait'']
   \<and> reply_lines (''220-mx.example.com ESMTP'' @ crlf @ ''220 ready'' @ crlf)
       = [''220-mx.example.com ESMTP'', ''220 ready'']
   \<and> written (run_session ''user@example.com''
        \<lparr>priority = 10, exchange = ''mx.example.com''\<rparr> 2000 ''email@example.org''
        [Data (''120 wait'' @ crlf)]) = []
   \<and> run_session ''user@example.com'' \<lparr>priority = 10, exchange = ''mx.example.com''\<rparr> 2000
        ''email@example.org''
        [Data (''120 wait'' @ crlf),
         Data (''220-mx.example.com ESMTP'' @ crlf @ ''220 ready'' @ crlf)]
      = \<lparr>idle_timeout = 2000, step = 1,
         transcript =
           [\<lparr>command = Some ''HELO mx.example.com'', message = ''120 wait'' @ crlf,
             status = Some 120\<rparr>,
            \<lparr>command = Some ''HELO mx.example.com'',
             message = ''220-mx.example.com ESMTP'' @ crlf @ ''220 ready'' @ crlf,
             status = Some 220\<rparr>],
         written = [''HELO mx.example.com'' @ crlf],
         ended = False,
         promise = Pending\<rparr>"
  by (simp add: eval_defs reply_lines_def)

text \<open>
  Claim C1. The probe never writes its third command. In a run where the server greets
  and accepts everything, only \<open>HELO\<close> and \<open>MAIL FROM\<close> are written; the promise is
  resolved with three entries, the third of which pairs the command \<open>RCPT TO\<close>, which was
  never written, with the reply to \<open>MAIL FROM\<close>.
\<close>

theorem probe_full_run_omits_rcpt:
  "run_session ''user@example.com'' \<lparr>priority = 10, exchange = ''mx.example.com''\<rparr> 2000
     ''email@example.org''
     [Data ''220 mx.example.com ESMTP'', Data ''250 mx.example.com'', Data ''250 2.1.0 Ok'']
   = \<lparr>idle_timeout = 2000, step = 2,
      transcript =
        [\<lparr>command = Some ''HELO mx.example.com'', message = ''220 mx.example.com ESMTP'',
          status = Some 220\<rparr>,
         \<lparr>command = Some ''MAIL FROM: <email@example.org>'', message = ''250 mx.example.com'',
          status = Some 250\<rparr>,
         \<lparr>command = Some ''RCPT TO: <user@example.com>'', message = ''250 2.1.0 Ok'',
          status = Some 250\<rparr>],
      written =
        [''HELO mx.example.com'' @ [CHR 0x0D, CHR 0x0A],
         ''MAIL FROM: <email@example.org>'' @ [CHR 0x0D, CHR 0x0A]],
      ended = True,
      promise = Resolved
        [\<lparr>command = Some ''HELO mx.example.com'', message = ''220 mx.example.com ESMTP'',
          status = Some 220\<rparr>,
         \<lparr>command = Some ''MAIL FROM: <email@example.org>'', message = ''250 mx.example.com'',
          status = Some 250\<rparr>,
         \<lparr>command = Some ''RCPT TO: <user@example.com>'', message = ''250 2.1.0 Ok'',
          status = Some 250\<rparr>]\<rparr>"
  by (simp add: eval_defs)

lemma timeout_unheard: "run_session e mx t f (evs @ [Timeout]) = run_session e mx t f evs"
  by (simp add: run_session_def Let_def)

text \<open>
  A negative duration makes \<open>smtp.setTimeout\<close> throw inside the promise, which is then
  rejected whatever the socket delivers.
\<close>

lemma negative_timeout_rejects:
  "t < 0 \<Longrightarrow> resolveSmtpMailbox e (mx # rest) t f evs = Rejected RangeError"
  by (simp add: resolveSmtpMailbox_def run_session_refused refused_def)

text \<open>
  Claim C3. The probe has no listener for the event \<open>timeout\<close> of its socket. When the
  event fires before the script completes, nothing happens: the socket is not ended and
  the promise stays pending.
\<close>

theorem probe_timeout_leaves_promise_pending:
  "run_session ''user@example.com'' \<lparr>priority = 10, exchange = ''mx.example.com''\<rparr> 2000
     ''email@example.org'' [Data ''220 mx.example.com ESMTP'', Timeout]
   = \<lparr>idle_timeout = 2000, step = 1,
      transcript =
        [\<lparr>command = Some ''HELO mx.example.com'', message = ''220 mx.example.com ESMTP'',
          status = Some 220\<rparr>],
      written = [''HELO mx.example.com'' @ [CHR 0x0D, CHR 0x0A]],
      ended = False,
      promise = Pending\<rparr>"
  by (simp add: eval_defs)

section \<open>Properties of the orchestrator\<close>

lemmas check_defs = check_with_def mx_check_def mailbox_check_def begin_run_def noted_def
  set_isValidPattern_def set_result_def set_mxRecords_def set_isValidMx_def
  set_smtpMessages_def set_isValidMailbox_def final_state_def effects_of_def completion_of_def
  Let_def js_index_def

lemma sample_state_fields:
  "emailAddress sample_state = ''user@example.com''"
  "invalidMailboxKeywords sample_state = []"
  "timeout sample_state = 2000"
  "mailFrom sample_state = ''email@example.org''"
  "hostname sample_state = Some ''example.com''"
  "smtpMessages sample_state = []"
  by (simp_all add: sample_state_def constructor_def js_index_def)

lemma sample_state_pattern:
  "resolvePattern (emailAddress sample_state) (invalidMailboxKeywords sample_state)"
  by (simp add: sample_state_fields resolvePattern_def)

lemma sample_dns_sorted:
  "resolveMx sample_dns (hostname sample_state)
     = Resolved [\<lparr>priority = 10, exchange = ''mx1.example.com''\<rparr>,
                 \<lparr>priority = 20, exchange = ''mx2.example.com''\<rparr>]"
  by (simp add: sample_state_fields resolveMx_def sample_dns_def)

lemma failing_dns_empty: "resolveMx failing_dns (hostname sample_state) = Resolved []"
  by (simp add: resolveMx_def failing_dns_def)

lemma probe_accepting:
  "probe_over [Data ''220 mx1.example.com ESMTP'', Data ''250 mx1.example.com'',
               Data ''250 2.1.0 Ok'']
     (emailAddress sample_state)
     [\<lparr>priority = 10, exchange = ''mx1.example.com''\<rparr>,
      \<lparr>priority = 20, exchange = ''mx2.example.com''\<rparr>]
     (timeout sample_state) (mailFrom sample_state)
   = Resolved
      [\<lparr>command = Some ''HELO mx1.example.com'', message = ''220 mx1.example.com ESMTP'',
        status = Some 220\<rparr>,
       \<lparr>command = Some ''MAIL FROM: <email@example.org>'', message = ''250 mx1.example.com'',
        status = Some 250\<rparr>,
       \<lparr>command = Some ''RCPT TO: <user@example.com>'', message = ''250 2.1.0 Ok'',
        status = Some 250\<rparr>]"
  by (simp add: probe_over_def resolveSmtpMailbox_def sample_state_fields eval_defs)

lemma probe_refusing:
  "probe_over [Data ''220 mx1.example.com ESMTP'', Data ''250 mx1.example.com'',
               Data ''550 5.1.8 Sender rejected'']
     (emailAddress sample_state)
     [\<lparr>priority = 10, exchange = ''mx1.example.com''\<rparr>,
      \<lparr>priority = 20, exchange = ''mx2.example.com''\<rparr>]
     (timeout sample_state) (mailFrom sample_state)
   = Resolved
      [\<lparr>command = Some ''HELO mx1.example.com'', message = ''220 mx1.example.com ESMTP'',
        status = Some 220\<rparr>,
       \<lparr>command = Some ''MAIL FROM: <email@example.org>'', message = ''250 mx1.example.com'',
        status = Some 250\<rparr>,
       \<lparr>command = Some ''RCPT TO: <user@example.com>'',
        message = ''550 5.1.8 Sender rejected'', status = Some 550\<rparr>]"
  by (simp add: probe_over_def resolveSmtpMailbox_def sample_state_fields eval_defs)

lemma probe_broken:
  "probe_over [Data ''220 mx1.example.com ESMTP'', SocketError (Error ''read ECONNRESET'')]
     (emailAddress sample_state)
     [\<lparr>priority = 10, exchange = ''mx1.example.com''\<rparr>,
      \<lparr>priority = 20, exchange = ''mx2.example.com''\<rparr>]
     (timeout sample_state) (mailFrom sample_state)
   = Rejected (Error ''read ECONNRESET'')"
  by (simp add: probe_over_def resolveSmtpMailbox_def sample_state_fields eval_defs)

lemma denied_state_fields:
  "emailAddress denied_state = ''noreply''"
  "invalidMailboxKeywords denied_state = [''noreply'']"
  "timeout denied_state = 500"
  "mailFrom denied_state = ''probe@example.org''"
  "mailbox denied_state = Some ''noreply''"
  "hostname denied_state = None"
  "mxRecords denied_state = []"
  "smtpMessages denied_state = []"
  "isValidMx denied_state = False"
  "isValidMailbox denied_state = False"
  by (simp_all add: denied_state_def constructor_def js_index_def)

lemma denied_state_pattern:
  "\<not> resolvePattern (emailAddress denied_state) (invalidMailboxKeywords denied_state)"
  by (simp add: denied_state_fields resolvePattern_def js_index_def rx_defs)

lemma denied_state_run:
  "check_with resolve probe denied_state
     = (\<lparr>this_state = denied_state\<lparr>isValidPattern := False,
                                      result := ''Email pattern is invalid.''\<rparr>,
         effects = [Assigned F_isValidPattern, Assigned F_result]\<rparr>, Returns)"
  using denied_state_pattern by (simp add: check_defs)

text \<open>
  Claim C4. When the pattern gate passes, the resolver gives at least one record and the
  probe resolves, \<open>check\<close> returns, and: with exactly 3 entries whose third status is 250
  the mailbox is valid and the result is \<open>Mailbox is valid.\<close>; with exactly 3 entries whose
  third status is not 250 the mailbox is not valid and the result is
  \<open>Mailbox is invalid.\<close>; with fewer than 3 entries the mailbox is not valid and the
  result is \<open>Could not validate mailbox.\<close>.
\<close>

theorem check_mailbox_verdict:
  assumes "resolvePattern (emailAddress st) (invalidMailboxKeywords st)"
    and "resolve (hostname st) = Resolved recs" and "recs \<noteq> []"
    and "probe (emailAddress st) recs (timeout st) (mailFrom st) = Resolved msgs"
  shows "completion_of (check_with resolve probe st) = Returns
    \<and> smtpMessages (final_state (check_with resolve probe st)) = msgs
    \<and> (length msgs = 3 \<and> status (msgs ! 2) = Some 250 \<longrightarrow>
         isValidMailbox (final_state (check_with resolve probe st))
         \<and> result (final_state (check_with resolve probe st)) = ''Mailbox is valid.'')
    \<and> (length msgs = 3 \<and> status (msgs ! 2) \<noteq> Some 250 \<longrightarrow>
         \<not> isValidMailbox (final_state (check_with resolve probe st))
         \<and> result (final_state (check_with resolve probe st)) = ''Mailbox is invalid.'')
    \<and> (length msgs < 3 \<longrightarrow>
         \<not> isValidMailbox (final_state (check_with resolve probe st))
         \<and> result (final_state (check_with resolve probe st)) = ''Could not validate mailbox.'')"
  using assms by (simp add: check_defs)

theorem check_mailbox_verdict_witness:
  "isValidMailbox (final_state (check sample_dns
       [Data ''220 mx1.example.com ESMTP'', Data ''250 mx1.example.com'',
        Data ''250 2.1.0 Ok''] sample_state))
   \<and> result (final_state (check sample_dns
       [Data ''220 mx1.example.com ESMTP'', Data ''250 mx1.example.com'',
        Data ''250 2.1.0 Ok''] sample_state)) = ''Mailbox is valid.''
   \<and> \<not> isValidMailbox (final_state (check sample_dns
       [Data ''220 mx1.example.com ESMTP'', Data ''250 mx1.example.com'',
        Data ''550 5.1.8 Sender rejected''] sample_state))
   \<and> result (final_state (check sample_dns
       [Data ''220 mx1.example.com ESMTP'', Data ''250 mx1.example.com'',
        Data ''550 5.1.8 Sender rejected''] sample_state)) = ''Mailbox is invalid.''
   \<and> \<not> isValidMailbox (final_state (check_with (resolveMx sample_dns)
       (\<lambda>e m t f. Resolved []) sample_state))
   \<and> result (final_state (check_with (resolveMx sample_dns)
       (\<lambda>e m t f. Resolved []) sample_state)) = ''Could not validate mailbox.''"
proof -
  have ne: "[\<lparr>priority = 10, exchange = ''mx1.example.com''\<rparr>,
             \<lparr>priority = 20, exchange = ''mx2.example.com''\<rparr>] \<noteq> []"
    by simp
  have none: "(\<lambda>e m t f. Resolved [])
      (emailAddress sample_state)
      [\<lparr>priority = 10, exchange = ''mx1.example.com''\<rparr>,
       \<lparr>priority = 20, exchange = ''mx2.example.com''\<rparr>]
      (timeout sample_state) (mailFrom sample_state) = Resolved []"
    by simp
  show ?thesis
    using
      check_mailbox_verdict [where resolve = "resolveMx sample_dns" and st = sample_state
        and probe = "probe_over [Data ''220 mx1.example.com ESMTP'',
          Data ''250 mx1.example.com'', Data ''250 2.1.0 Ok'']",
        OF sample_state_pattern sample_dns_sorted ne probe_accepting]
      check_mailbox_verdict [where resolve = "resolveMx sample_dns" and st = sample_state
        and probe = "probe_over [Data ''220 mx1.example.com ESMTP'',
          Data ''250 mx1.example.com'', Data ''550 5.1.8 Sender rejected'']",
        OF sample_state_pattern sample_dns_sorted ne probe_refusing]
      check_mailbox_verdict [where resolve = "resolveMx sample_dns" and st = sample_state
        and probe = "\<lambda>e m t f. Resolved []",
        OF sample_state_pattern sample_dns_sorted ne none]
    by (simp add: check_def)
qed

text \<open>
  Claim C5. When the pattern gate passes and the resolver gives the empty list, \<open>check\<close>
  returns with the result \<open>Email server is invalid or not available.\<close> and \<open>isValidMx\<close>
  false; the probe is not called, and \<open>smtpMessages\<close> is what it was before the run, which
  is the empty list on an instance that comes from the constructor.
\<close>

theorem check_empty_mx:
  assumes "resolvePattern (emailAddress st) (invalidMailboxKeywords st)"
    and "resolve (hostname st) = Resolved []"
  shows "completion_of (check_with resolve probe st) = Returns
    \<and> result (final_state (check_with resolve probe st))
        = ''Email server is invalid or not available.''
    \<and> \<not> isValidMx (final_state (check_with resolve probe st))
    \<and> filter is_probe_call (effects_of (check_with resolve probe st)) = []
    \<and> smtpMessages (final_state (check_with resolve probe st)) = smtpMessages st
    \<and> (\<forall>c. st = constructor c \<longrightarrow>
          smtpMessages (final_state (check_with resolve probe st)) = [])"
proof -
  have run: "completion_of (check_with resolve probe st) = Returns
    \<and> result (final_state (check_with resolve probe st))
        = ''Email server is invalid or not available.''
    \<and> \<not> isValidMx (final_state (check_with resolve probe st))
    \<and> filter is_probe_call (effects_of (check_with resolve probe st)) = []
    \<and> smtpMessages (final_state (check_with resolve probe st)) = smtpMessages st"
    using assms by (simp add: check_defs)
  have fresh: "smtpMessages (constructor c) = []" for c
    by (simp add: constructor_def)
  from run fresh show ?thesis by metis
qed

theorem check_empty_mx_witness:
  "resolvePattern (emailAddress sample_state) (invalidMailboxKeywords sample_state)
   \<and> resolveMx failing_dns (hostname sample_state) = Resolved []
   \<and> completion_of (check failing_dns [] sample_state) = Returns
   \<and> result (final_state (check failing_dns [] sample_state))
       = ''Email server is invalid or not available.''
   \<and> \<not> isValidMx (final_state (check failing_dns [] sample_state))
   \<and> filter is_probe_call (effects_of (check failing_dns [] sample_state)) = []
   \<and> smtpMessages (final_state (check failing_dns [] sample_state)) = []"
  using check_empty_mx [where resolve = "resolveMx failing_dns" and st = sample_state
      and probe = "probe_over []", OF sample_state_pattern failing_dns_empty]
    sample_state_pattern failing_dns_empty
  by (simp add: check_def sample_state_fields)


text \<open>
  Claim C8. \<open>check\<close> throws two errors and no other. When the resolver rejects, it throws
  an error with the message \<open>MX record check failed.\<close>; when the probe rejects, it throws
  an error with the message \<open>Mailbox check failed.\<close>; neither depends on the error that was
  caught. An invalid pattern, an empty list of records and a transcript that the probe
  resolves with all make \<open>check\<close> return.
\<close>

theorem check_thrown_errors:
  "(\<forall>e. completion_of (check_with resolve probe st) = Throws e \<longrightarrow>
      e = Error ''MX record check failed.'' \<or> e = Error ''Mailbox check failed.'')
   \<and> (\<forall>err. resolvePattern (emailAddress st) (invalidMailboxKeywords st)
          \<and> resolve (hostname st) = Rejected err \<longrightarrow>
        completion_of (check_with resolve probe st) = Throws (Error ''MX record check failed.''))
   \<and> (\<forall>recs err. resolvePattern (emailAddress st) (invalidMailboxKeywords st)
          \<and> resolve (hostname st) = Resolved recs \<and> recs \<noteq> []
          \<and> probe (emailAddress st) recs (timeout st) (mailFrom st) = Rejected err \<longrightarrow>
        completion_of (check_with resolve probe st) = Throws (Error ''Mailbox check failed.''))
   \<and> (\<not> resolvePattern (emailAddress st) (invalidMailboxKeywords st) \<longrightarrow>
        completion_of (check_with resolve probe st) = Returns)
   \<and> (resolve (hostname st) = Resolved [] \<longrightarrow>
        completion_of (check_with resolve probe st) = Returns)
   \<and> (\<forall>recs msgs. resolve (hostname st) = Resolved recs
          \<and> probe (emailAddress st) recs (timeout st) (mailFrom st) = Resolved msgs \<longrightarrow>
        completion_of (check_with resolve probe st) = Returns)"
  by (auto simp: check_defs split: outcome.splits option.splits)


theorem check_thrown_errors_witness:
  "completion_of (check_with (\<lambda>h. Rejected (Error ''resolver broke'')) (probe_over [])
       sample_state) = Throws (Error ''MX record check failed.'')
   \<and> completion_of (check sample_dns
       [Data ''220 mx1.example.com ESMTP'', SocketError (Error ''read ECONNRESET'')]
       sample_state) = Throws (Error ''Mailbox check failed.'')
   \<and> completion_of (check sample_dns [] denied_state) = Returns
   \<and> completion_of (check failing_dns [] sample_state) = Returns
   \<and> completion_of (check sample_dns
       [Data ''220 mx1.example.com ESMTP'', Data ''250 mx1.example.com'',
        Data ''550 5.1.8 Sender rejected''] sample_state) = Returns"
  using
    check_thrown_errors [where resolve = "\<lambda>h. Rejected (Error ''resolver broke'')"
      and probe = "probe_over []" and st = sample_state]
    check_thrown_errors [where resolve = "resolveMx sample_dns"
      and probe = "probe_over [Data ''220 mx1.example.com ESMTP'',
        SocketError (Error ''read ECONNRESET'')]" and st = sample_state]
    check_thrown_errors [where resolve = "resolveMx sample_dns"
      and probe = "probe_over []" and st = denied_state]
    check_thrown_errors [where resolve = "resolveMx failing_dns"
      and probe = "probe_over []" and st = sample_state]
    check_thrown_errors [where resolve = "resolveMx sample_dns"
      and probe = "probe_over [Data ''220 mx1.example.com ESMTP'',
        Data ''250 mx1.example.com'', Data ''550 5.1.8 Sender rejected'']"
      and st = sample_state]
    sample_state_pattern denied_state_pattern
  by (simp add: check_def sample_dns_sorted failing_dns_empty probe_broken probe_refusing)

lemma check_request_fields:
  "emailAddress (final_state (check_with resolve probe st)) = emailAddress st
   \<and> timeout (final_state (check_with resolve probe st)) = timeout st
   \<and> invalidMailboxKeywords (final_state (check_with resolve probe st))
       = invalidMailboxKeywords st
   \<and> mailFrom (final_state (check_with resolve probe st)) = mailFrom st
   \<and> mailbox (final_state (check_with resolve probe st)) = mailbox st
   \<and> hostname (final_state (check_with resolve probe st)) = hostname st"
  by (simp add: check_defs split: outcome.splits option.splits)

lemma check_assigns_once:
  "distinct (assigned_fields (effects_of (check_with resolve probe st)))"
  by (simp add: check_defs split: outcome.splits option.splits)

lemma check_mx_gate_unreached:
  "filter is_mx_call (effects_of (check_with resolve probe st)) = [] \<Longrightarrow>
   \<not> isValidPattern (final_state (check_with resolve probe st))
   \<and> isValidMx (final_state (check_with resolve probe st)) = isValidMx st
   \<and> mxRecords (final_state (check_with resolve probe st)) = mxRecords st"
  by (simp add: check_defs split: outcome.splits option.splits if_splits)

lemma check_mailbox_gate_unreached:
  "filter is_probe_call (effects_of (check_with resolve probe st)) = [] \<Longrightarrow>
   isValidMailbox (final_state (check_with resolve probe st)) = isValidMailbox st
   \<and> smtpMessages (final_state (check_with resolve probe st)) = smtpMessages st"
  by (simp add: check_defs split: outcome.splits option.splits if_splits)

lemma check_pattern_gate_failed:
  "\<not> isValidPattern (final_state (check_with resolve probe st)) \<Longrightarrow>
   filter is_mx_call (effects_of (check_with resolve probe st)) = []
   \<and> filter is_probe_call (effects_of (check_with resolve probe st)) = []
   \<and> result (final_state (check_with resolve probe st)) = ''Email pattern is invalid.''"
  by (simp add: check_defs split: outcome.splits option.splits if_splits)


text \<open>
  Claim C10. A run of \<open>check\<close> leaves the six fields of the request as they were, and
  assigns each field of the result at most once. The fields of a gate that the run did
  not reach keep their value; on an instance that comes from the constructor that value
  is the default, so that an unreached gate has its flag false and its list empty, and
  after a failed pattern gate \<open>isValidMx\<close> and \<open>isValidMailbox\<close> are false and \<open>mxRecords\<close>
  and \<open>smtpMessages\<close> are empty. This holds on every path of \<open>check\<close>, so on every path
  that returns.
\<close>

theorem check_frame:
  "emailAddress (final_state (check_with resolve probe st)) = emailAddress st
    \<and> timeout (final_state (check_with resolve probe st)) = timeout st
    \<and> invalidMailboxKeywords (final_state (check_with resolve probe st))
        = invalidMailboxKeywords st
    \<and> mailFrom (final_state (check_with resolve probe st)) = mailFrom st
    \<and> mailbox (final_state (check_with resolve probe st)) = mailbox st
    \<and> hostname (final_state (check_with resolve probe st)) = hostname st
    \<and> distinct (assigned_fields (effects_of (check_with resolve probe st)))
    \<and> (filter is_mx_call (effects_of (check_with resolve probe st)) = [] \<longrightarrow>
         isValidMx (final_state (check_with resolve probe st)) = isValidMx st
         \<and> mxRecords (final_state (check_with resolve probe st)) = mxRecords st)
    \<and> (filter is_probe_call (effects_of (check_with resolve probe st)) = [] \<longrightarrow>
         isValidMailbox (final_state (check_with resolve probe st)) = isValidMailbox st
         \<and> smtpMessages (final_state (check_with resolve probe st)) = smtpMessages st)
    \<and> (filter is_mx_call (effects_of (check_with resolve probe (constructor c))) = [] \<longrightarrow>
         \<not> isValidMx (final_state (check_with resolve probe (constructor c)))
         \<and> mxRecords (final_state (check_with resolve probe (constructor c))) = [])
    \<and> (filter is_probe_call (effects_of (check_with resolve probe (constructor c))) = [] \<longrightarrow>
         \<not> isValidMailbox (final_state (check_with resolve probe (constructor c)))
         \<and> smtpMessages (final_state (check_with resolve probe (constructor c))) = [])
    \<and> (\<not> isValidPattern (final_state (check_with resolve probe (constructor c))) \<longrightarrow>
         \<not> isValidMx (final_state (check_with resolve probe (constructor c)))
         \<and> \<not> isValidMailbox (final_state (check_with resolve probe (constructor c)))
         \<and> mxRecords (final_state (check_with resolve probe (constructor c))) = []
         \<and> smtpMessages (final_state (check_with resolve probe (constructor c))) = [])"
proof -
  have fresh: "\<not> isValidMx (constructor c) \<and> \<not> isValidMailbox (constructor c)
     \<and> mxRecords (constructor c) = [] \<and> smtpMessages (constructor c) = []"
    by (simp add: constructor_def)
  show ?thesis
    using check_request_fields [of resolve probe st] check_assigns_once [of resolve probe st]
      check_mx_gate_unreached [of resolve probe st]
      check_mailbox_gate_unreached [of resolve probe st]
      check_mx_gate_unreached [of resolve probe "constructor c"]
      check_mailbox_gate_unreached [of resolve probe "constructor c"]
      check_pattern_gate_failed [of resolve probe "constructor c"] fresh
    by simp
qed


theorem check_frame_witness:
  "\<not> isValidPattern (final_state (check sample_dns [] denied_state))
   \<and> filter is_mx_call (effects_of (check sample_dns [] denied_state)) = []
   \<and> filter is_probe_call (effects_of (check sample_dns [] denied_state)) = []
   \<and> \<not> isValidMx (final_state (check sample_dns [] denied_state))
   \<and> \<not> isValidMailbox (final_state (check sample_dns [] denied_state))
   \<and> mxRecords (final_state (check sample_dns [] denied_state)) = []
   \<and> smtpMessages (final_state (check sample_dns [] denied_state)) = []
   \<and> emailAddress (final_state (check sample_dns [] denied_state)) = ''noreply''
   \<and> timeout (final_state (check sample_dns [] denied_state)) = 500
   \<and> invalidMailboxKeywords (final_state (check sample_dns [] denied_state)) = [''noreply'']
   \<and> mailFrom (final_state (check sample_dns [] denied_state)) = ''probe@example.org''
   \<and> mailbox (final_state (check sample_dns [] denied_state)) = Some ''noreply''
   \<and> hostname (final_state (check sample_dns [] denied_state)) = None
   \<and> distinct (assigned_fields (effects_of (check sample_dns [] denied_state)))"
proof -
  have a: "\<not> isValidPattern (final_state (check sample_dns [] denied_state))"
    by (simp add: check_def denied_state_run final_state_def)
  have b: "filter is_mx_call (effects_of (check sample_dns [] denied_state)) = []"
    by (simp add: check_def denied_state_run effects_of_def)
  have c: "filter is_probe_call (effects_of (check sample_dns [] denied_state)) = []"
    by (simp add: check_def denied_state_run effects_of_def)
  have e: "check sample_dns [] denied_state
             = check_with (resolveMx sample_dns) (probe_over []) denied_state"
    by (simp add: check_def)
  note frame = check_frame [where resolve = "resolveMx sample_dns" and probe = "probe_over []"
      and st = denied_state
      and c = "\<lparr>cfg_emailAddress = ''noreply'', cfg_invalidMailboxKeywords = Some [''noreply''],
                cfg_timeout = Some 500, cfg_mailFrom = Some ''probe@example.org''\<rparr>",
      folded denied_state_def]
  from frame a b c show ?thesis
    unfolding e by (simp add: denied_state_fields)
qed

text \<open>
  A run of \<open>check\<close> whose socket falls silent after the greeting: the event \<open>timeout\<close>
  settles nothing, so \<open>check\<close> neither returns nor throws.
\<close>

lemma check_hangs_on_timeout:
  "completion_of (check sample_dns [Data ''220 mx1.example.com ESMTP'', Timeout] sample_state)
     = Hangs"
  by (simp add: check_def check_defs sample_state_fields resolvePattern_def resolveMx_def
      sample_dns_def probe_over_def resolveSmtpMailbox_def run_session_def connect_def
      commands_of_def handler_defs js_str_def js_gt_def parseInt_def radix_value_def
      digit_value_def is_space_def crlf_def)

end
